theory Spec2Isabelle
  imports Main
begin

section \<open>Data model of the replicated file store\<close>

text \<open>
  The Python program keeps \<^verbatim>\<open>Node\<close> objects in a list and mutates them in place, so a
  node is an object on a heap and the registry is a list of references. The heap is a
  total function from addresses to node objects; an address that no list mentions is
  an object nobody refers to. Byte strings, file identifiers (hexadecimal digests) and
  node identifiers are character lists.

  The lock of the coordinator only brackets single assignments and all operations are
  modelled as sequential calls; log messages are not part of the state or of any
  returned value and are left out.
\<close>

type_synonym bytes = string
type_synonym file_id = string
type_synonym node_id = string
type_synonym addr = nat

record node =
  node_id :: node_id
  files :: "file_id \<rightharpoonup> bytes"

text \<open>The dictionary stored in \<^verbatim>\<open>file_map\<close>: keys \<^verbatim>\<open>"filename"\<close> and \<^verbatim>\<open>"nodes"\<close>.\<close>

record file_record =
  filename :: string
  nodes_rec :: "node_id list"

record dfs =
  heap :: "addr \<Rightarrow> node"
  nodes :: "addr list"
  file_map :: "file_id \<rightharpoonup> file_record"
  num_replicas :: int

text \<open>
  The only exception the coordinator can raise: \<^verbatim>\<open>random.sample\<close> raises
  \<^verbatim>\<open>ValueError\<close> ("Sample larger than population or is negative").
\<close>

datatype error = ValueError

section \<open>Class Node\<close>

definition Node_store_file :: "node \<Rightarrow> file_id \<Rightarrow> bytes \<Rightarrow> node" where
  "Node_store_file n fid data = n\<lparr>files := (files n)(fid \<mapsto> data)\<rparr>"

definition Node_get_file :: "node \<Rightarrow> file_id \<Rightarrow> bytes option" where
  "Node_get_file n fid = files n fid"

definition Node_delete_file :: "node \<Rightarrow> file_id \<Rightarrow> node" where
  "Node_delete_file n fid =
     (if files n fid \<noteq> None then n\<lparr>files := (files n)(fid := None)\<rparr> else n)"

section \<open>Class DistributedFileStorageSystem\<close>

text \<open>The constructor, for a given heap of existing objects.\<close>

definition init_dfs :: "(addr \<Rightarrow> node) \<Rightarrow> int \<Rightarrow> dfs" where
  "init_dfs h k = \<lparr>heap = h, nodes = [], file_map = Map.empty, num_replicas = k\<rparr>"

definition add_node :: "addr \<Rightarrow> dfs \<Rightarrow> dfs" where
  "add_node a s = s\<lparr>nodes := nodes s @ [a]\<rparr>"

definition remove_node :: "node_id \<Rightarrow> dfs \<Rightarrow> dfs" where
  "remove_node nid s = s\<lparr>nodes := filter (\<lambda>a. node_id (heap s a) \<noteq> nid) (nodes s)\<rparr>"

text \<open>
  \<^verbatim>\<open>hashlib.sha256(data).hexdigest()\<close> is library code; the digest function is a
  parameter of the model and every theorem holds for each digest function.
\<close>

definition hash_file :: "(bytes \<Rightarrow> file_id) \<Rightarrow> bytes \<Rightarrow> file_id" where
  "hash_file sha256_hexdigest data = sha256_hexdigest data"

text \<open>
  \<^verbatim>\<open>random.sample(population, k)\<close> raises \<^verbatim>\<open>ValueError\<close> unless \<open>0 \<le> k \<le> n\<close>;
  otherwise it returns the elements at \<open>k\<close> pairwise different positions, in the order
  drawn. The positions drawn are the argument \<open>sel\<close>; \<open>valid_sel\<close> says that a list of
  positions is one the library can draw.
\<close>

definition valid_sel :: "nat list \<Rightarrow> nat \<Rightarrow> int \<Rightarrow> bool" where
  "valid_sel sel n k \<longleftrightarrow> int (length sel) = k \<and> distinct sel \<and> (\<forall>i\<in>set sel. i < n)"

definition random_sample :: "nat list \<Rightarrow> 'a list \<Rightarrow> int \<Rightarrow> error + 'a list" where
  "random_sample sel population k =
     (if \<not> (0 \<le> k \<and> k \<le> int (length population)) then Inl ValueError
      else Inr (map (\<lambda>i. population ! i) sel))"

text \<open>The loop \<^verbatim>\<open>for node in selected_nodes: node.store_file(file_id, data)\<close>.\<close>

fun store_loop :: "(addr \<Rightarrow> node) \<Rightarrow> file_id \<Rightarrow> bytes \<Rightarrow> addr list \<Rightarrow> (addr \<Rightarrow> node)" where
  "store_loop h fid data [] = h"
| "store_loop h fid data (a # rest) =
     store_loop (h(a := Node_store_file (h a) fid data)) fid data rest"

text \<open>
  An exception leaves the object as it is at the raise; the state is returned next to
  the outcome in every case.
\<close>

definition store_file ::
  "(bytes \<Rightarrow> file_id) \<Rightarrow> nat list \<Rightarrow> string \<Rightarrow> bytes \<Rightarrow> dfs \<Rightarrow> (error + file_id) \<times> dfs" where
  "store_file H sel fname data s =
     (let fid = hash_file H data in
      if file_map s fid \<noteq> None then (Inr fid, s)
      else
        (case random_sample sel (nodes s) (num_replicas s) of
           Inl e \<Rightarrow> (Inl e, s)
         | Inr selected_nodes \<Rightarrow>
             (let h = store_loop (heap s) fid data selected_nodes;
                  r = \<lparr>filename = fname,
                       nodes_rec = map (\<lambda>a. node_id (h a)) selected_nodes\<rparr>
              in (Inr fid, s\<lparr>heap := h, file_map := (file_map s)(fid \<mapsto> r)\<rparr>))))"

text \<open>\<^verbatim>\<open>next((n for n in self.nodes if n.node_id == node_id), None)\<close>: the first match.\<close>

definition find_node :: "(addr \<Rightarrow> node) \<Rightarrow> addr list \<Rightarrow> node_id \<Rightarrow> addr option" where
  "find_node h ns nid = List.find (\<lambda>a. node_id (h a) = nid) ns"

text \<open>
  The retrieval loop. A \<^verbatim>\<open>Node\<close> object is always true in \<^verbatim>\<open>if node:\<close>; in
  \<^verbatim>\<open>if data:\<close> both \<^verbatim>\<open>None\<close> and the empty byte string are false.
\<close>

fun retrieve_loop :: "dfs \<Rightarrow> file_id \<Rightarrow> node_id list \<Rightarrow> bytes option \<times> dfs" where
  "retrieve_loop s fid [] = (None, s)"
| "retrieve_loop s fid (nid # rest) =
     (case find_node (heap s) (nodes s) nid of
        None \<Rightarrow> retrieve_loop s fid rest
      | Some a \<Rightarrow>
          (case Node_get_file (heap s a) fid of
             None \<Rightarrow> retrieve_loop s fid rest
           | Some data \<Rightarrow> if data \<noteq> [] then (Some data, s) else retrieve_loop s fid rest))"

definition retrieve_file :: "dfs \<Rightarrow> file_id \<Rightarrow> bytes option \<times> dfs" where
  "retrieve_file s fid =
     (case file_map s fid of
        None \<Rightarrow> (None, s)
      | Some r \<Rightarrow> retrieve_loop s fid (nodes_rec r))"

fun delete_loop :: "dfs \<Rightarrow> file_id \<Rightarrow> node_id list \<Rightarrow> dfs" where
  "delete_loop s fid [] = s"
| "delete_loop s fid (nid # rest) =
     (case find_node (heap s) (nodes s) nid of
        None \<Rightarrow> delete_loop s fid rest
      | Some a \<Rightarrow>
          delete_loop (s\<lparr>heap := (heap s)(a := Node_delete_file (heap s a) fid)\<rparr>) fid rest)"

definition delete_file :: "dfs \<Rightarrow> file_id \<Rightarrow> bool \<times> dfs" where
  "delete_file s fid =
     (case file_map s fid of
        None \<Rightarrow> (False, s)
      | Some r \<Rightarrow>
          (let s1 = delete_loop s fid (nodes_rec r)
           in (True, s1\<lparr>file_map := (file_map s1)(fid := None)\<rparr>)))"

section \<open>Notions used by the properties\<close>

definition registry_ids :: "dfs \<Rightarrow> node_id list" where
  "registry_ids s = map (\<lambda>a. node_id (heap s a)) (nodes s)"

text \<open>No two different node objects of the registry carry the same identifier.\<close>

definition unique_ids :: "dfs \<Rightarrow> bool" where
  "unique_ids s \<longleftrightarrow>
     (\<forall>a\<in>set (nodes s). \<forall>b\<in>set (nodes s). node_id (heap s a) = node_id (heap s b) \<longrightarrow> a = b)"

text \<open>The node objects that the lookups of a list of identifiers resolve to.\<close>

definition targets :: "dfs \<Rightarrow> node_id list \<Rightarrow> addr set" where
  "targets s nids = {a. \<exists>nid\<in>set nids. find_node (heap s) (nodes s) nid = Some a}"

text \<open>The node objects a draw selects: the elements of the registry at the drawn positions.\<close>

definition placement :: "dfs \<Rightarrow> nat list \<Rightarrow> addr list" where
  "placement s sel = map (\<lambda>i. nodes s ! i) sel"

text \<open>
  A listed identifier yields the payload when its lookup finds a node and that node
  returns data that the test \<^verbatim>\<open>if data:\<close> accepts.
\<close>

definition yields :: "dfs \<Rightarrow> file_id \<Rightarrow> node_id \<Rightarrow> bool" where
  "yields s fid nid =
     (case find_node (heap s) (nodes s) nid of
        None \<Rightarrow> False
      | Some a \<Rightarrow>
          (case Node_get_file (heap s a) fid of None \<Rightarrow> False | Some data \<Rightarrow> data \<noteq> []))"

text \<open>
  The states that sequences of the five operations reach from a fresh coordinator. Next
  to the state runs a history variable: for each file identifier, the identifiers of
  the registry members at the moment the current record was created. It is written
  only by the step that creates a record. A store draws positions the library can
  draw whenever the sampling call does not raise.
\<close>

inductive reach :: "(bytes \<Rightarrow> file_id) \<Rightarrow> dfs \<Rightarrow> (file_id \<rightharpoonup> node_id list) \<Rightarrow> bool"
  for H :: "bytes \<Rightarrow> file_id" where
  reach_init: "reach H (init_dfs h k) Map.empty"
| reach_add_node: "reach H s g \<Longrightarrow> reach H (add_node a s) g"
| reach_remove_node: "reach H s g \<Longrightarrow> reach H (remove_node nid s) g"
| reach_store_file:
    "reach H s g \<Longrightarrow>
     (0 \<le> num_replicas s \<and> num_replicas s \<le> int (length (nodes s))
        \<longrightarrow> valid_sel sel (length (nodes s)) (num_replicas s)) \<Longrightarrow>
     reach H (snd (store_file H sel fname data s))
       (if file_map s (hash_file H data) = None
           \<and> file_map (snd (store_file H sel fname data s)) (hash_file H data) \<noteq> None
        then g(hash_file H data \<mapsto> registry_ids s) else g)"
| reach_retrieve_file: "reach H s g \<Longrightarrow> reach H (snd (retrieve_file s fid)) g"
| reach_delete_file: "reach H s g \<Longrightarrow> reach H (snd (delete_file s fid)) g"

text \<open>
  The invariant of the reachable states: every identifier listed in a record is among
  the identifiers the registry had when the record was created.
\<close>

definition born_in_registry :: "dfs \<Rightarrow> (file_id \<rightharpoonup> node_id list) \<Rightarrow> bool" where
  "born_in_registry s g \<longleftrightarrow>
     (\<forall>fid r. file_map s fid = Some r \<longrightarrow>
        (\<exists>ids. g fid = Some ids \<and> set (nodes_rec r) \<subseteq> set ids))"

section \<open>Concrete instances\<close>

text \<open>
  A stand-in digest and small heaps for the concrete instances below. In
  \<open>three_nodes\<close> the objects 0, 1 and 2 are named as in the repository's test set-up and
  every further object is again called node1; in \<open>twin_nodes\<close> all objects share one
  identifier.
\<close>

definition toy_digest :: "bytes \<Rightarrow> file_id" where
  "toy_digest data = ''sha:'' @ data"

definition three_nodes :: "addr \<Rightarrow> node" where
  "three_nodes a =
     \<lparr>node_id = (if a = 1 then ''node2'' else if a = 2 then ''node3'' else ''node1''),
      files = Map.empty\<rparr>"

definition twin_nodes :: "addr \<Rightarrow> node" where
  "twin_nodes a = \<lparr>node_id = ''node1'', files = Map.empty\<rparr>"

definition dfs2 :: dfs where
  "dfs2 = add_node 1 (add_node 0 (init_dfs three_nodes 3))"

definition dfs3 :: dfs where
  "dfs3 = add_node 2 (add_node 1 (add_node 0 (init_dfs three_nodes 3)))"

text \<open>The scenario of the tests: "Hello World" stored on the three nodes; then departures.\<close>

definition stored3 :: dfs where
  "stored3 = snd (store_file toy_digest [0, 1, 2] ''test.txt'' ''Hello World'' dfs3)"

definition lost1 :: dfs where
  "lost1 = remove_node ''node1'' stored3"

definition lost3 :: dfs where
  "lost3 = remove_node ''node3'' (remove_node ''node2'' lost1)"

text \<open>The empty payload stored on the three nodes.\<close>

definition empty3 :: dfs where
  "empty3 = snd (store_file toy_digest [0, 1, 2] ''empty.txt'' [] dfs3)"

text \<open>
  Node objects that share an identifier, with the default replication factor 3. In
  \<open>shadowed\<close> a fourth object, again called node1, joins the three nodes; the draw
  takes it together with node2 and node3, and then node2 and node3 leave. In
  \<open>twins3\<close> three objects called node1 are registered and all are drawn.
\<close>

definition shadowed :: dfs where
  "shadowed = remove_node ''node3'' (remove_node ''node2''
                (snd (store_file toy_digest [3, 1, 2] ''test.txt'' ''Hello World''
                        (add_node 3 dfs3))))"

definition twins3 :: dfs where
  "twins3 = snd (store_file toy_digest [0, 1, 2] ''test.txt'' ''Hello World''
                  (add_node 2 (add_node 1 (add_node 0 (init_dfs twin_nodes 3)))))"

text \<open>Three registered nodes and a negative replication factor.\<close>

definition neg3 :: dfs where
  "neg3 = add_node 2 (add_node 1 (add_node 0 (init_dfs three_nodes (- 1))))"

text \<open>
  A node object that already holds content under the identifier of the empty payload
  when it is registered, followed by a second object called node1 and by node2 and
  node3; the draw takes the last three.
\<close>

definition junk_nodes :: "addr \<Rightarrow> node" where
  "junk_nodes a =
     \<lparr>node_id = (if a = 2 then ''node2'' else if a = 3 then ''node3'' else ''node1''),
      files = (if a = 0 then [toy_digest [] \<mapsto> ''junk''] else Map.empty)\<rparr>"

definition junk4 :: dfs where
  "junk4 = add_node 3 (add_node 2 (add_node 1 (add_node 0 (init_dfs junk_nodes 3))))"

definition junked :: dfs where
  "junked = snd (store_file toy_digest [1, 2, 3] ''empty.txt'' [] junk4)"

section \<open>Basic facts about the loops\<close>

lemma store_loop_apply:
  "store_loop h fid data as a = (if a \<in> set as then Node_store_file (h a) fid data else h a)"
  by (induction as arbitrary: h) (auto simp: Node_store_file_def)

lemma retrieve_loop_state: "snd (retrieve_loop s fid nids) = s"
  by (induction nids) (auto split: option.splits)

lemma find_node_SomeD:
  "find_node h ns nid = Some a \<Longrightarrow> a \<in> set ns \<and> node_id (h a) = nid"
  unfolding find_node_def by (induction ns) (auto split: if_splits)

lemma find_node_None_iff:
  "find_node h ns nid = None \<longleftrightarrow> (\<forall>a\<in>set ns. node_id (h a) \<noteq> nid)"
  unfolding find_node_def by (induction ns) auto

lemma find_node_cong_ids:
  "(\<And>a. a \<in> set ns \<Longrightarrow> node_id (h' a) = node_id (h a)) \<Longrightarrow> find_node h' ns nid = find_node h ns nid"
  unfolding find_node_def by (induction ns) auto

lemma find_node_unique:
  assumes "unique_ids s" and "a \<in> set (nodes s)"
  shows "find_node (heap s) (nodes s) (node_id (heap s a)) = Some a"
proof (cases "find_node (heap s) (nodes s) (node_id (heap s a))")
  case None
  with assms(2) show ?thesis by (auto simp: find_node_None_iff)
next
  case (Some b)
  from find_node_SomeD [OF Some] have "b \<in> set (nodes s)" "node_id (heap s b) = node_id (heap s a)"
    by simp_all
  with assms have "b = a" unfolding unique_ids_def by blast
  with Some show ?thesis by simp
qed

lemma retrieve_loop_None_iff:
  "fst (retrieve_loop s fid nids) = None \<longleftrightarrow> (\<forall>nid\<in>set nids. \<not> yields s fid nid)"
  by (induction nids) (auto simp: yields_def split: option.splits)

lemma retrieve_loop_Some:
  "fst (retrieve_loop s fid nids) = Some data \<Longrightarrow>
     data \<noteq> [] \<and> (\<exists>a\<in>targets s nids. files (heap s a) fid = Some data)"
  by (induction nids) (auto simp: targets_def Node_get_file_def split: option.splits if_splits)

lemma Node_delete_file_id [simp]: "node_id (Node_delete_file n fid) = node_id n"
  by (simp add: Node_delete_file_def)

lemma Node_delete_file_files [simp]: "files (Node_delete_file n fid) = (files n)(fid := None)"
  by (auto simp: Node_delete_file_def)

lemma Node_delete_file_idem [simp]:
  "Node_delete_file (Node_delete_file n fid) fid = Node_delete_file n fid"
  by (simp add: Node_delete_file_def)

lemma delete_loop_frame:
  "nodes (delete_loop s fid nids) = nodes s
   \<and> file_map (delete_loop s fid nids) = file_map s
   \<and> num_replicas (delete_loop s fid nids) = num_replicas s"
  by (induction s fid nids rule: delete_loop.induct) (auto split: option.splits)

lemma delete_loop_heap:
  "heap (delete_loop s fid nids) a =
     (if a \<in> targets s nids then Node_delete_file (heap s a) fid else heap s a)"
proof (induction s fid nids rule: delete_loop.induct)
  case (1 s fid)
  then show ?case by (simp add: targets_def)
next
  case (2 s fid nid rest)
  show ?case
  proof (cases "find_node (heap s) (nodes s) nid")
    case None
    then have "targets s (nid # rest) = targets s rest"
      by (auto simp: targets_def)
    with None 2 show ?thesis by simp
  next
    case (Some b)
    let ?s1 = "s\<lparr>heap := (heap s)(b := Node_delete_file (heap s b) fid)\<rparr>"
    have "find_node ((heap s)(b := Node_delete_file (heap s b) fid)) (nodes s) n
            = find_node (heap s) (nodes s) n" for n
      by (rule find_node_cong_ids) simp
    then have fn: "find_node (heap ?s1) (nodes ?s1) n = find_node (heap s) (nodes s) n" for n
      by simp
    then have t1: "targets ?s1 rest = targets s rest"
      by (simp add: targets_def)
    have t2: "targets s (nid # rest) = insert b (targets s rest)"
      using Some by (auto simp: targets_def)
    have "heap (delete_loop s fid (nid # rest)) a = heap (delete_loop ?s1 fid rest) a"
      using Some by simp
    also have "\<dots> = (if a \<in> targets ?s1 rest then Node_delete_file (heap ?s1 a) fid else heap ?s1 a)"
      using "2.IH"(2) [OF Some] .
    also have "\<dots> = (if a \<in> insert b (targets s rest) then Node_delete_file (heap s a) fid else heap s a)"
      unfolding t1 by simp
    finally show ?thesis unfolding t2 .
  qed
qed

lemma targets_registered: "a \<in> targets s nids \<Longrightarrow> a \<in> set (nodes s) \<and> node_id (heap s a) \<in> set nids"
  by (auto simp: targets_def dest: find_node_SomeD)

lemma targets_unique:
  assumes "unique_ids s" and "a \<in> set (nodes s)" and "node_id (heap s a) \<in> set nids"
  shows "a \<in> targets s nids"
  using assms find_node_unique [OF assms(1,2)] by (auto simp: targets_def)

lemma yields_unique:
  assumes "unique_ids s" and "a \<in> set (nodes s)" and "files (heap s a) fid = Some P" and "P \<noteq> []"
  shows "yields s fid (node_id (heap s a))"
  using assms find_node_unique [OF assms(1,2)] by (simp add: yields_def Node_get_file_def)

lemma retrieve_file_None_iff:
  "fst (retrieve_file s fid) = None \<longleftrightarrow>
     (case file_map s fid of None \<Rightarrow> True | Some r \<Rightarrow> \<forall>nid\<in>set (nodes_rec r). \<not> yields s fid nid)"
  by (simp add: retrieve_file_def retrieve_loop_None_iff split: option.splits)

lemma store_loop_node_id: "node_id (store_loop h fid data as a) = node_id (h a)"
  by (simp add: store_loop_apply Node_store_file_def)

lemma store_file_fresh:
  assumes "file_map s (hash_file H data) = None"
    and "0 \<le> num_replicas s" and "num_replicas s \<le> int (length (nodes s))"
  shows "store_file H sel fname data s =
     (Inr (hash_file H data),
      s\<lparr>heap := (\<lambda>a. if a \<in> set (placement s sel)
                      then Node_store_file (heap s a) (hash_file H data) data else heap s a),
        file_map := (file_map s)(hash_file H data \<mapsto>
           \<lparr>filename = fname, nodes_rec = map (\<lambda>a. node_id (heap s a)) (placement s sel)\<rparr>)\<rparr>)"
proof -
  have h: "store_loop (heap s) fid data as =
        (\<lambda>a. if a \<in> set as then Node_store_file (heap s a) fid data else heap s a)" for fid as
    by (rule ext) (rule store_loop_apply)
  have "store_file H sel fname data s =
     (Inr (hash_file H data),
      s\<lparr>heap := store_loop (heap s) (hash_file H data) data (placement s sel),
        file_map := (file_map s)(hash_file H data \<mapsto>
           \<lparr>filename = fname, nodes_rec = map (\<lambda>a. node_id (heap s a)) (placement s sel)\<rparr>)\<rparr>)"
    using assms
    by (simp add: store_file_def random_sample_def Let_def store_loop_node_id placement_def)
  then show ?thesis by (simp only: h)
qed

lemma valid_sel_range: "valid_sel sel n k \<Longrightarrow> 0 \<le> k \<and> k \<le> int n"
proof -
  assume v: "valid_sel sel n k"
  then have "set sel \<subseteq> {..<n}" "distinct sel" by (auto simp: valid_sel_def)
  then have "card (set sel) \<le> card {..<n}" by (intro card_mono) auto
  with \<open>distinct sel\<close> have "length sel \<le> n" by (simp add: distinct_card)
  with v show ?thesis by (auto simp: valid_sel_def)
qed

lemma placement_registered: "valid_sel sel (length (nodes s)) k \<Longrightarrow> set (placement s sel) \<subseteq> set (nodes s)"
  by (auto simp: valid_sel_def placement_def)

lemma store_file_outcomes:
  "snd (store_file H sel fname data s) = s
   \<or> (file_map s (hash_file H data) = None \<and> 0 \<le> num_replicas s
       \<and> num_replicas s \<le> int (length (nodes s))
       \<and> snd (store_file H sel fname data s) =
           s\<lparr>heap := (\<lambda>a. if a \<in> set (placement s sel)
                      then Node_store_file (heap s a) (hash_file H data) data else heap s a),
             file_map := (file_map s)(hash_file H data \<mapsto>
               \<lparr>filename = fname, nodes_rec = map (\<lambda>a. node_id (heap s a)) (placement s sel)\<rparr>)\<rparr>)"
proof (cases "file_map s (hash_file H data) = None \<and> 0 \<le> num_replicas s
       \<and> num_replicas s \<le> int (length (nodes s))")
  case True
  then show ?thesis by (simp add: store_file_fresh)
next
  case False
  then have "snd (store_file H sel fname data s) = s"
    by (auto simp: store_file_def random_sample_def Let_def)
  then show ?thesis by simp
qed

lemma delete_file_file_map:
  "file_map (snd (delete_file s fid)) = (file_map s)(fid := None)"
  by (auto simp: delete_file_def Let_def delete_loop_frame split: option.splits)

lemma reach_born_in_registry: "reach H s g \<Longrightarrow> born_in_registry s g"
proof (induction rule: reach.induct)
  case (reach_init h k)
  then show ?case by (simp add: born_in_registry_def init_dfs_def)
next
  case (reach_add_node s g a)
  then show ?case by (simp add: born_in_registry_def add_node_def)
next
  case (reach_remove_node s g nid)
  then show ?case by (simp add: born_in_registry_def remove_node_def)
next
  case (reach_store_file s g sel fname data)
  let ?s1 = "snd (store_file H sel fname data s)"
  from store_file_outcomes [of H sel fname data s] show ?case
  proof
    assume "?s1 = s"
    with reach_store_file.IH show ?thesis by (simp add: born_in_registry_def)
  next
    assume c: "file_map s (hash_file H data) = None \<and> 0 \<le> num_replicas s
       \<and> num_replicas s \<le> int (length (nodes s))
       \<and> ?s1 = s\<lparr>heap := (\<lambda>a. if a \<in> set (placement s sel)
                      then Node_store_file (heap s a) (hash_file H data) data else heap s a),
             file_map := (file_map s)(hash_file H data \<mapsto>
               \<lparr>filename = fname, nodes_rec = map (\<lambda>a. node_id (heap s a)) (placement s sel)\<rparr>)\<rparr>"
    with reach_store_file.hyps(2) have "valid_sel sel (length (nodes s)) (num_replicas s)"
      by simp
    from placement_registered [OF this]
    have sub: "set (map (\<lambda>a. node_id (heap s a)) (placement s sel)) \<subseteq> set (registry_ids s)"
      by (auto simp: registry_ids_def)
    from c have fm: "file_map ?s1 = (file_map s)(hash_file H data \<mapsto>
               \<lparr>filename = fname, nodes_rec = map (\<lambda>a. node_id (heap s a)) (placement s sel)\<rparr>)"
      by simp
    show ?thesis
      using reach_store_file.IH c sub unfolding born_in_registry_def fm
      by (auto simp del: set_map)
  qed
next
  case (reach_retrieve_file s g fid)
  then show ?case by (simp add: retrieve_file_def retrieve_loop_state split: option.splits)
next
  case (reach_delete_file s g fid)
  then show ?case by (simp add: born_in_registry_def delete_file_file_map)
qed

lemma retrieve_loop_finds:
  assumes "unique_ids s"
    and "P \<noteq> []"
    and "\<forall>a\<in>set (nodes s). node_id (heap s a) \<in> set nids \<longrightarrow>
            files (heap s a) fid = None \<or> files (heap s a) fid = Some P"
    and "\<exists>a\<in>set (nodes s). node_id (heap s a) \<in> set nids \<and> files (heap s a) fid = Some P"
  shows "fst (retrieve_loop s fid nids) = Some P"
proof (cases "fst (retrieve_loop s fid nids)")
  case None
  from assms(4) obtain a where a: "a \<in> set (nodes s)" "node_id (heap s a) \<in> set nids"
    "files (heap s a) fid = Some P" by blast
  from yields_unique [OF assms(1) a(1) a(3) assms(2)] a(2) None
  show ?thesis by (auto simp: retrieve_loop_None_iff)
next
  case (Some d)
  from retrieve_loop_Some [OF Some] obtain a
    where a: "a \<in> targets s nids" "files (heap s a) fid = Some d" by blast
  from targets_registered [OF a(1)] a(2) assms(3) have "d = P" by auto
  with Some show ?thesis by simp
qed

section \<open>Evaluating the concrete instances\<close>

lemmas eval_defs =
  dfs2_def dfs3_def stored3_def lost1_def lost3_def empty3_def shadowed_def twins3_def
  neg3_def junk4_def junked_def toy_digest_def three_nodes_def twin_nodes_def junk_nodes_def
  init_dfs_def add_node_def remove_node_def hash_file_def random_sample_def store_file_def
  retrieve_file_def delete_file_def find_node_def Node_store_file_def Node_get_file_def
  Node_delete_file_def registry_ids_def yields_def placement_def Let_def


lemma valid_sel_dfs3: "valid_sel [0, 1, 2] (length (nodes dfs3)) (num_replicas dfs3)"
  by (simp add: valid_sel_def eval_defs)

section \<open>The registry\<close>

text \<open>
  C5 (as amended). \<open>add_node\<close> appends the node object to the registry whatever its
  identifier, and touches nothing else; when the identifier is already carried by a
  registry member, the registry afterwards lists that identifier more than once.
\<close>

theorem add_node_appends:
  "nodes (add_node a s) = nodes s @ [a]
   \<and> heap (add_node a s) = heap s
   \<and> file_map (add_node a s) = file_map s
   \<and> num_replicas (add_node a s) = num_replicas s
   \<and> (node_id (heap s a) \<in> set (registry_ids s) \<longrightarrow> \<not> distinct (registry_ids (add_node a s)))"
  by (auto simp: add_node_def registry_ids_def)

theorem add_node_appends_witness:
  "node_id (heap dfs3 3) \<in> set (registry_ids dfs3)
   \<and> nodes (add_node 3 dfs3) = nodes dfs3 @ [3]
   \<and> \<not> distinct (registry_ids (add_node 3 dfs3))"
proof -
  have h: "node_id (heap dfs3 3) \<in> set (registry_ids dfs3)"
    by (simp add: eval_defs)
  with add_node_appends [of 3 dfs3] show ?thesis by blast
qed

text \<open>
  The claim as stated fails: a second object called node1 is added to a registry that
  has a node1, and the registry grows by that object.
\<close>

theorem add_node_duplicate_counterexample:
  "registry_ids dfs3 = [''node1'', ''node2'', ''node3'']
   \<and> node_id (heap dfs3 3) = ''node1''
   \<and> nodes dfs3 = [0, 1, 2]
   \<and> nodes (add_node 3 dfs3) = [0, 1, 2, 3]
   \<and> registry_ids (add_node 3 dfs3) = [''node1'', ''node2'', ''node3'', ''node1'']"
  by (simp add: eval_defs)

section \<open>Storing\<close>

text \<open>
  C1 (as amended). When the registry has fewer nodes than the replication factor and the
  payload's identifier has no record, \<open>store_file\<close> fails with the \<^verbatim>\<open>ValueError\<close> that
  the sampling call raises, which nothing catches; the coordinator has no failure of its
  own for this case. The call raises before anything is written, so the whole state,
  with the directory and every node's files, is as before.
\<close>

theorem store_file_insufficient:
  assumes "int (length (nodes s)) < num_replicas s"
    and "file_map s (hash_file H data) = None"
  shows "store_file H sel fname data s = (Inl ValueError, s)"
  using assms by (simp add: store_file_def random_sample_def)

theorem store_file_insufficient_witness:
  "int (length (nodes dfs2)) < num_replicas dfs2
   \<and> file_map dfs2 (hash_file toy_digest ''Hello World'') = None
   \<and> store_file toy_digest [0, 1, 2] ''test.txt'' ''Hello World'' dfs2 = (Inl ValueError, dfs2)"
proof -
  have a: "int (length (nodes dfs2)) < num_replicas dfs2"
    by (simp add: dfs2_def add_node_def init_dfs_def)
  have b: "file_map dfs2 (hash_file toy_digest ''Hello World'') = None"
    by (simp add: dfs2_def add_node_def init_dfs_def)
  from a b store_file_insufficient [OF a b] show ?thesis by simp
qed

text \<open>
  The claim as stated fails: the code reports no failure that stands for too few nodes.
  What the caller gets with two nodes and factor 3 is the sampling error, the very
  value it gets with three nodes and factor -1, where no node is missing.
\<close>

theorem store_file_value_error_counterexample:
  "int (length (nodes dfs2)) < num_replicas dfs2
   \<and> file_map dfs2 (hash_file toy_digest ''Hello World'') = None
   \<and> fst (store_file toy_digest [0, 1, 2] ''test.txt'' ''Hello World'' dfs2) = Inl ValueError
   \<and> num_replicas neg3 \<le> int (length (nodes neg3))
   \<and> file_map neg3 (hash_file toy_digest ''Hello World'') = None
   \<and> fst (store_file toy_digest [] ''test.txt'' ''Hello World'' neg3) = Inl ValueError"
  by (simp add: eval_defs)

text \<open>
  C4 (as amended). When the payload's identifier has a record, or the replication factor
  lies between 0 and the number of registered nodes, the first \<open>store_file\<close> returns the
  digest of the payload, and a second \<open>store_file\<close> of the same payload, under any file
  name and with any draw, returns the same identifier and leaves the state of the first
  call untouched: no node is written, no replica is added, the record is not changed.
  In every other state both calls raise the sampling error and the state stays as it
  was.
\<close>

theorem store_file_twice:
  "(file_map s (hash_file H data) \<noteq> None
      \<or> (0 \<le> num_replicas s \<and> num_replicas s \<le> int (length (nodes s)))
    \<longrightarrow> fst (store_file H sel1 fname1 data s) = Inr (hash_file H data)
        \<and> store_file H sel2 fname2 data (snd (store_file H sel1 fname1 data s))
            = (Inr (hash_file H data), snd (store_file H sel1 fname1 data s)))
   \<and> (\<not> (file_map s (hash_file H data) \<noteq> None
           \<or> (0 \<le> num_replicas s \<and> num_replicas s \<le> int (length (nodes s))))
    \<longrightarrow> store_file H sel1 fname1 data s = (Inl ValueError, s)
        \<and> store_file H sel2 fname2 data (snd (store_file H sel1 fname1 data s))
            = (Inl ValueError, s))"
  by (auto simp: store_file_def Let_def random_sample_def split: sum.splits)

theorem store_file_twice_witness:
  "0 \<le> num_replicas dfs3 \<and> num_replicas dfs3 \<le> int (length (nodes dfs3))
   \<and> fst (store_file toy_digest [0, 1, 2] ''test.txt'' ''Hello World'' dfs3)
        = Inr (hash_file toy_digest ''Hello World'')
   \<and> store_file toy_digest [2, 0, 1] ''again.txt'' ''Hello World'' stored3
        = (Inr (hash_file toy_digest ''Hello World''), stored3)
   \<and> file_map dfs2 (hash_file toy_digest ''Hello World'') = None
   \<and> int (length (nodes dfs2)) < num_replicas dfs2
   \<and> store_file toy_digest [0, 1, 2] ''test.txt'' ''Hello World'' dfs2 = (Inl ValueError, dfs2)
   \<and> store_file toy_digest [2, 0, 1] ''again.txt'' ''Hello World''
         (snd (store_file toy_digest [0, 1, 2] ''test.txt'' ''Hello World'' dfs2))
        = (Inl ValueError, dfs2)"
proof -
  let ?fid = "hash_file toy_digest ''Hello World''"
  have a: "0 \<le> num_replicas dfs3 \<and> num_replicas dfs3 \<le> int (length (nodes dfs3))"
    by (simp add: dfs3_def add_node_def init_dfs_def)
  have b: "file_map dfs2 ?fid = None" "int (length (nodes dfs2)) < num_replicas dfs2"
    by (simp_all add: dfs2_def add_node_def init_dfs_def)
  from store_file_twice [of dfs3 toy_digest "''Hello World''" "[0, 1, 2]" "''test.txt''"
      "[2, 0, 1]" "''again.txt''"] a
  have c: "fst (store_file toy_digest [0, 1, 2] ''test.txt'' ''Hello World'' dfs3) = Inr ?fid"
    "store_file toy_digest [2, 0, 1] ''again.txt'' ''Hello World'' stored3 = (Inr ?fid, stored3)"
    unfolding stored3_def by blast+
  from b have nb: "\<not> (file_map dfs2 ?fid \<noteq> None
      \<or> (0 \<le> num_replicas dfs2 \<and> num_replicas dfs2 \<le> int (length (nodes dfs2))))"
    by simp
  from store_file_twice [of dfs2 toy_digest "''Hello World''" "[0, 1, 2]" "''test.txt''"
      "[2, 0, 1]" "''again.txt''"] nb
  have d: "store_file toy_digest [0, 1, 2] ''test.txt'' ''Hello World'' dfs2 = (Inl ValueError, dfs2)"
    "store_file toy_digest [2, 0, 1] ''again.txt'' ''Hello World''
       (snd (store_file toy_digest [0, 1, 2] ''test.txt'' ''Hello World'' dfs2))
     = (Inl ValueError, dfs2)"
    by blast+
  from a b c d show ?thesis by blast
qed

text \<open>
  The claim as stated fails: with two registered nodes and replication factor 3 neither
  call returns an identifier.
\<close>

theorem store_file_twice_counterexample:
  "fst (store_file toy_digest [0, 1, 2] ''test.txt'' ''Hello World'' dfs2) = Inl ValueError
   \<and> fst (store_file toy_digest [0, 1, 2] ''test.txt'' ''Hello World''
              (snd (store_file toy_digest [0, 1, 2] ''test.txt'' ''Hello World'' dfs2)))
        = Inl ValueError"
  by (simp add: eval_defs)




section \<open>Retrieving\<close>

text \<open>
  C10. \<open>retrieve_file\<close> is read-only: the state after the call, with the registry, the
  directory and the files of every node, is the state before it.
\<close>

theorem retrieve_file_read_only: "snd (retrieve_file s fid) = s"
  by (simp add: retrieve_file_def retrieve_loop_state split: option.splits)

text \<open>
  C2 (as amended). \<open>retrieve_file\<close> of an identifier without a record returns nothing,
  and \<open>retrieve_file\<close> of an identifier with a record of which no listed identifier
  yields a payload returns nothing as well: both failures hand the caller the same
  value \<^verbatim>\<open>None\<close> and the unchanged state.
\<close>

theorem retrieve_file_failures:
  "(file_map s fid = None \<longrightarrow> retrieve_file s fid = (None, s))
   \<and> (\<forall>r. file_map s fid = Some r \<and> (\<forall>nid\<in>set (nodes_rec r). \<not> yields s fid nid)
          \<longrightarrow> retrieve_file s fid = (None, s))"
proof -
  have "snd (retrieve_file s fid) = s"
    by (simp add: retrieve_file_def retrieve_loop_state split: option.splits)
  then have "retrieve_file s fid = (None, s) \<longleftrightarrow> fst (retrieve_file s fid) = None"
    by (auto simp: prod_eq_iff)
  then show ?thesis
    by (simp add: retrieve_file_None_iff)
qed

theorem retrieve_file_failures_witness:
  "file_map dfs3 (toy_digest ''Hello World'') = None
   \<and> retrieve_file dfs3 (toy_digest ''Hello World'') = (None, dfs3)
   \<and> file_map lost3 (toy_digest ''Hello World'')
        = Some \<lparr>filename = ''test.txt'', nodes_rec = [''node1'', ''node2'', ''node3'']\<rparr>
   \<and> \<not> yields lost3 (toy_digest ''Hello World'') ''node1''
   \<and> \<not> yields lost3 (toy_digest ''Hello World'') ''node2''
   \<and> \<not> yields lost3 (toy_digest ''Hello World'') ''node3''
   \<and> retrieve_file lost3 (toy_digest ''Hello World'') = (None, lost3)"
proof -
  let ?fid = "toy_digest ''Hello World''"
  let ?r = "\<lparr>filename = ''test.txt'', nodes_rec = [''node1'', ''node2'', ''node3'']\<rparr>"
  have a: "file_map dfs3 ?fid = None"
    by (simp add: eval_defs)
  have b: "file_map lost3 ?fid = Some ?r"
    by (simp add: eval_defs)
  have c: "\<not> yields lost3 ?fid ''node1''" "\<not> yields lost3 ?fid ''node2''"
    "\<not> yields lost3 ?fid ''node3''"
    by (simp_all add: eval_defs)
  then have d: "\<forall>nid\<in>set (nodes_rec ?r). \<not> yields lost3 ?fid nid"
    by simp
  from retrieve_file_failures [of dfs3 ?fid] a
  have "retrieve_file dfs3 ?fid = (None, dfs3)" by blast
  moreover from retrieve_file_failures [of lost3 ?fid] b d
  have "retrieve_file lost3 ?fid = (None, lost3)" by blast
  ultimately show ?thesis using a b c by blast
qed

text \<open>
  The claim as stated fails: one call on an identifier that was never stored and one on
  a stored identifier whose nodes have all left the registry return the same value and
  leave their states as they were, so the caller cannot tell the two failures apart.
\<close>

theorem retrieve_failures_same_counterexample:
  "file_map dfs3 (toy_digest ''Hello World'') = None
   \<and> file_map lost3 (toy_digest ''Hello World'')
        = Some \<lparr>filename = ''test.txt'', nodes_rec = [''node1'', ''node2'', ''node3'']\<rparr>
   \<and> nodes lost3 = []
   \<and> fst (retrieve_file dfs3 (toy_digest ''Hello World''))
        = fst (retrieve_file lost3 (toy_digest ''Hello World''))
   \<and> snd (retrieve_file dfs3 (toy_digest ''Hello World'')) = dfs3
   \<and> snd (retrieve_file lost3 (toy_digest ''Hello World'')) = lost3"
  by (simp add: eval_defs)

text \<open>
  C3 (as amended). Let the identifier have a record, let the identifiers of the registry
  be unique, and let the payload \<open>P\<close> be non-empty and be what the replicas are: every
  registered node that the record lists holds \<open>P\<close> or nothing under the identifier. As
  long as at least one listed node is still registered and still holds \<open>P\<close>,
  \<open>retrieve_file\<close> returns \<open>P\<close>.
\<close>

theorem retrieve_file_returns_payload:
  assumes "file_map s fid = Some r"
    and "unique_ids s"
    and "P \<noteq> []"
    and "\<forall>a\<in>set (nodes s). node_id (heap s a) \<in> set (nodes_rec r) \<longrightarrow>
            files (heap s a) fid = None \<or> files (heap s a) fid = Some P"
    and "\<exists>a\<in>set (nodes s). node_id (heap s a) \<in> set (nodes_rec r) \<and> files (heap s a) fid = Some P"
  shows "fst (retrieve_file s fid) = Some P"
proof -
  have "fst (retrieve_loop s fid (nodes_rec r)) = Some P"
    using assms(2-5) by (rule retrieve_loop_finds)
  with assms(1) show ?thesis by (simp add: retrieve_file_def)
qed

theorem retrieve_file_returns_payload_witness:
  "file_map lost1 (toy_digest ''Hello World'')
        = Some \<lparr>filename = ''test.txt'', nodes_rec = [''node1'', ''node2'', ''node3'']\<rparr>
   \<and> unique_ids lost1
   \<and> nodes lost1 = [1, 2]
   \<and> registry_ids lost1 = [''node2'', ''node3'']
   \<and> files (heap lost1 1) (toy_digest ''Hello World'') = Some ''Hello World''
   \<and> files (heap lost1 2) (toy_digest ''Hello World'') = Some ''Hello World''
   \<and> fst (retrieve_file lost1 (toy_digest ''Hello World'')) = Some ''Hello World''"
proof -
  let ?fid = "toy_digest ''Hello World''"
  let ?r = "\<lparr>filename = ''test.txt'', nodes_rec = [''node1'', ''node2'', ''node3'']\<rparr>"
  have a: "file_map lost1 ?fid = Some ?r"
    by (simp add: eval_defs)
  have u: "unique_ids lost1"
    by (simp add: unique_ids_def eval_defs)
  have n: "nodes lost1 = [1, 2]" "registry_ids lost1 = [''node2'', ''node3'']"
    by (simp_all add: eval_defs)
  have f: "files (heap lost1 1) ?fid = Some ''Hello World''"
    "files (heap lost1 2) ?fid = Some ''Hello World''"
    by (simp_all add: eval_defs)
  have ne: "''Hello World'' \<noteq> []" by simp
  have c: "\<forall>a\<in>set (nodes lost1). node_id (heap lost1 a) \<in> set (nodes_rec ?r) \<longrightarrow>
             files (heap lost1 a) ?fid = None \<or> files (heap lost1 a) ?fid = Some ''Hello World''"
    using f by (simp add: n)
  have l: "\<exists>a\<in>set (nodes lost1). node_id (heap lost1 a) \<in> set (nodes_rec ?r)
             \<and> files (heap lost1 a) ?fid = Some ''Hello World''"
    using f by (simp add: n eval_defs)
  from retrieve_file_returns_payload [OF a u ne c l] a u n f show ?thesis by blast
qed

text \<open>
  The claim as stated fails in two ways. The empty payload is stored on three registered
  nodes that all hold it, and retrieval returns nothing. And with two node objects under
  the identifier node1, the payload is stored on the second of them (object 3), which
  stays registered and holds it; after node2 and node3 have left, the lookup of node1
  finds the first object, which holds nothing, and retrieval returns nothing.
\<close>

theorem retrieve_after_store_counterexample:
  "fst (store_file toy_digest [0, 1, 2] ''empty.txt'' [] dfs3) = Inr (toy_digest [])
   \<and> file_map empty3 (toy_digest [])
        = Some \<lparr>filename = ''empty.txt'', nodes_rec = [''node1'', ''node2'', ''node3'']\<rparr>
   \<and> nodes empty3 = [0, 1, 2]
   \<and> registry_ids empty3 = [''node1'', ''node2'', ''node3'']
   \<and> files (heap empty3 0) (toy_digest []) = Some []
   \<and> fst (retrieve_file empty3 (toy_digest [])) = None
   \<and> file_map shadowed (toy_digest ''Hello World'')
        = Some \<lparr>filename = ''test.txt'', nodes_rec = [''node1'', ''node2'', ''node3'']\<rparr>
   \<and> nodes shadowed = [0, 3]
   \<and> node_id (heap shadowed 3) = ''node1''
   \<and> files (heap shadowed 3) (toy_digest ''Hello World'') = Some ''Hello World''
   \<and> files (heap shadowed 0) (toy_digest ''Hello World'') = None
   \<and> fst (retrieve_file shadowed (toy_digest ''Hello World'')) = None"
  by (simp add: eval_defs)

text \<open>
  These hypotheses are what a store establishes: after a store that creates the
  record in a registry with unique identifiers, and any sequence of node removals that
  leaves at least one drawn node registered, a non-empty payload is retrieved.
\<close>

lemma fold_remove_node:
  "fold remove_node gone s =
     s\<lparr>nodes := filter (\<lambda>a. node_id (heap s a) \<notin> set gone) (nodes s)\<rparr>"
proof (induction gone arbitrary: s)
  case Nil
  then show ?case by simp
next
  case (Cons nid gone)
  have "fold remove_node (nid # gone) s = fold remove_node gone (remove_node nid s)"
    by simp
  also have "\<dots> = (remove_node nid s)\<lparr>nodes :=
       filter (\<lambda>a. node_id (heap (remove_node nid s) a) \<notin> set gone) (nodes (remove_node nid s))\<rparr>"
    by (rule Cons.IH)
  also have "\<dots> = s\<lparr>nodes := filter (\<lambda>a. node_id (heap s a) \<notin> set (nid # gone)) (nodes s)\<rparr>"
    unfolding remove_node_def by (auto intro: filter_cong)
  finally show ?case .
qed

lemma store_then_retrieve:
  assumes fresh: "file_map s (hash_file H P) = None"
    and sel: "valid_sel sel (length (nodes s)) (num_replicas s)"
    and uniq: "unique_ids s"
    and ne: "P \<noteq> []"
    and alive: "\<exists>a\<in>set (placement s sel). node_id (heap s a) \<notin> set gone"
  shows "fst (retrieve_file (fold remove_node gone (snd (store_file H sel fname P s))) (hash_file H P))
         = Some P"
proof -
  let ?fid = "hash_file H P"
  let ?s1 = "snd (store_file H sel fname P s)"
  let ?s2 = "fold remove_node gone ?s1"
  let ?r = "\<lparr>filename = fname, nodes_rec = map (\<lambda>a. node_id (heap s a)) (placement s sel)\<rparr>"
  note rng = valid_sel_range [OF sel]
  note st = store_file_fresh [OF fresh rng [THEN conjunct1] rng [THEN conjunct2], of sel fname]
  note reg = placement_registered [OF sel]
  have hp: "heap ?s2 a = (if a \<in> set (placement s sel) then Node_store_file (heap s a) ?fid P else heap s a)" for a
    by (simp add: st fold_remove_node)
  have ids: "node_id (heap ?s2 a) = node_id (heap s a)" for a
    by (simp add: hp Node_store_file_def)
  have ns: "nodes ?s2 = filter (\<lambda>a. node_id (heap s a) \<notin> set gone) (nodes s)"
    by (simp add: fold_remove_node st Node_store_file_def cong: filter_cong)
  have fm: "file_map ?s2 ?fid = Some ?r"
    by (simp add: st fold_remove_node)
  have u2: "unique_ids ?s2"
    using uniq unfolding unique_ids_def ids ns by auto
  have content: "\<forall>a\<in>set (nodes ?s2). node_id (heap ?s2 a) \<in> set (nodes_rec ?r) \<longrightarrow>
            files (heap ?s2 a) ?fid = None \<or> files (heap ?s2 a) ?fid = Some P"
  proof (intro ballI impI)
    fix a assume a: "a \<in> set (nodes ?s2)" "node_id (heap ?s2 a) \<in> set (nodes_rec ?r)"
    then obtain b where b: "b \<in> set (placement s sel)" "node_id (heap s b) = node_id (heap s a)"
      by (auto simp: ids)
    from a(1) have "a \<in> set (nodes s)" by (simp add: ns)
    moreover from b(1) reg have "b \<in> set (nodes s)" by blast
    ultimately have "a = b" using uniq b(2) unfolding unique_ids_def by metis
    with b(1) show "files (heap ?s2 a) ?fid = None \<or> files (heap ?s2 a) ?fid = Some P"
      by (simp add: hp Node_store_file_def)
  qed
  from alive obtain a where a: "a \<in> set (placement s sel)" "node_id (heap s a) \<notin> set gone"
    by blast
  with reg have "a \<in> set (nodes ?s2)" by (auto simp: ns)
  moreover from a(1) have "node_id (heap ?s2 a) \<in> set (nodes_rec ?r)" by (simp add: ids)
  moreover from a(1) have "files (heap ?s2 a) ?fid = Some P" by (simp add: hp Node_store_file_def)
  ultimately have live: "\<exists>a\<in>set (nodes ?s2). node_id (heap ?s2 a) \<in> set (nodes_rec ?r)
         \<and> files (heap ?s2 a) ?fid = Some P"
    by blast
  have "fst (retrieve_loop ?s2 ?fid (nodes_rec ?r)) = Some P"
    by (rule retrieve_loop_finds [OF u2 ne content live])
  with fm show ?thesis by (simp add: retrieve_file_def)
qed

section \<open>Deleting\<close>

text \<open>
  C6. After \<open>delete_file\<close> the identifier has no record, and \<open>retrieve_file\<close> of it takes
  the not-found exit and returns nothing.
\<close>

theorem delete_then_retrieve:
  "file_map (snd (delete_file s fid)) fid = None
   \<and> fst (retrieve_file (snd (delete_file s fid)) fid) = None"
  by (auto simp: delete_file_def retrieve_file_def Let_def split: option.splits)

text \<open>
  C7 (as amended). For an identifier with a record, \<open>delete_file\<close> reports success,
  removes the record and leaves the registry as it is; it calls the node-level delete
  on exactly the node objects that the lookups of the listed identifiers find (a
  listed identifier that no registry node carries is skipped), and every other object
  is untouched. Afterwards none of the objects found holds anything under the
  identifier; when the identifiers of the registry are unique, no registered node with
  a listed identifier does.
\<close>

theorem delete_file_effect:
  assumes "file_map s fid = Some r"
  shows "fst (delete_file s fid) = True
   \<and> nodes (snd (delete_file s fid)) = nodes s
   \<and> num_replicas (snd (delete_file s fid)) = num_replicas s
   \<and> file_map (snd (delete_file s fid)) = (file_map s)(fid := None)
   \<and> (\<forall>a. heap (snd (delete_file s fid)) a =
          (if a \<in> targets s (nodes_rec r) then Node_delete_file (heap s a) fid else heap s a))
   \<and> (\<forall>a\<in>targets s (nodes_rec r). files (heap (snd (delete_file s fid)) a) fid = None)
   \<and> (unique_ids s \<longrightarrow>
        (\<forall>a\<in>set (nodes (snd (delete_file s fid))).
           node_id (heap (snd (delete_file s fid)) a) \<in> set (nodes_rec r)
           \<longrightarrow> files (heap (snd (delete_file s fid)) a) fid = None))"
proof -
  let ?s1 = "delete_loop s fid (nodes_rec r)"
  have d: "delete_file s fid = (True, ?s1\<lparr>file_map := (file_map ?s1)(fid := None)\<rparr>)"
    using assms by (simp add: delete_file_def Let_def)
  have h: "heap (snd (delete_file s fid)) a =
          (if a \<in> targets s (nodes_rec r) then Node_delete_file (heap s a) fid else heap s a)" for a
    by (simp add: d delete_loop_heap)
  have n: "nodes (snd (delete_file s fid)) = nodes s"
    by (simp add: d delete_loop_frame)
  have t: "files (heap (snd (delete_file s fid)) a) fid = None" if "a \<in> targets s (nodes_rec r)" for a
    using that by (simp add: h)
  have u: "files (heap (snd (delete_file s fid)) a) fid = None"
    if "unique_ids s" "a \<in> set (nodes s)" "node_id (heap (snd (delete_file s fid)) a) \<in> set (nodes_rec r)" for a
  proof -
    have "node_id (heap s a) \<in> set (nodes_rec r)"
      using that(3) by (simp add: h split: if_splits)
    with that(1,2) have "a \<in> targets s (nodes_rec r)"
      by (rule targets_unique)
    then show ?thesis by (rule t)
  qed
  show ?thesis
    using h n t u by (simp add: d delete_loop_frame)
qed

theorem delete_file_effect_witness:
  "file_map stored3 (toy_digest ''Hello World'')
        = Some \<lparr>filename = ''test.txt'', nodes_rec = [''node1'', ''node2'', ''node3'']\<rparr>
   \<and> unique_ids stored3
   \<and> files (heap stored3 0) (toy_digest ''Hello World'') = Some ''Hello World''
   \<and> fst (delete_file stored3 (toy_digest ''Hello World'')) = True
   \<and> nodes (snd (delete_file stored3 (toy_digest ''Hello World''))) = [0, 1, 2]
   \<and> file_map (snd (delete_file stored3 (toy_digest ''Hello World''))) (toy_digest ''Hello World'') = None
   \<and> files (heap (snd (delete_file stored3 (toy_digest ''Hello World''))) 0) (toy_digest ''Hello World'') = None
   \<and> files (heap (snd (delete_file stored3 (toy_digest ''Hello World''))) 1) (toy_digest ''Hello World'') = None
   \<and> files (heap (snd (delete_file stored3 (toy_digest ''Hello World''))) 2) (toy_digest ''Hello World'') = None"
proof -
  let ?fid = "toy_digest ''Hello World''"
  let ?r = "\<lparr>filename = ''test.txt'', nodes_rec = [''node1'', ''node2'', ''node3'']\<rparr>"
  let ?s = "snd (delete_file stored3 ?fid)"
  have a: "file_map stored3 ?fid = Some ?r"
    by (simp add: eval_defs)
  have u: "unique_ids stored3"
    by (simp add: unique_ids_def eval_defs)
  have f: "files (heap stored3 0) ?fid = Some ''Hello World''"
    by (simp add: eval_defs)
  have n: "nodes stored3 = [0, 1, 2]" "registry_ids stored3 = [''node1'', ''node2'', ''node3'']"
    by (simp_all add: eval_defs)
  note e = delete_file_effect [OF a]
  from e have e1: "fst (delete_file stored3 ?fid) = True" and e2: "nodes ?s = nodes stored3"
    and e4: "file_map ?s = (file_map stored3)(?fid := None)"
    and e5: "\<forall>a. heap ?s a =
          (if a \<in> targets stored3 (nodes_rec ?r) then Node_delete_file (heap stored3 a) ?fid
           else heap stored3 a)"
    and e7: "unique_ids stored3 \<longrightarrow>
        (\<forall>a\<in>set (nodes ?s). node_id (heap ?s a) \<in> set (nodes_rec ?r) \<longrightarrow> files (heap ?s a) ?fid = None)"
    by blast+
  have ids: "node_id (heap ?s a) = node_id (heap stored3 a)" for a
    using e5 by simp
  from e7 u have g: "\<forall>a\<in>set (nodes ?s). node_id (heap ?s a) \<in> set (nodes_rec ?r) \<longrightarrow> files (heap ?s a) ?fid = None"
    by blast
  have "files (heap ?s 0) ?fid = None" "files (heap ?s 1) ?fid = None" "files (heap ?s 2) ?fid = None"
    using g n unfolding e2 ids by (simp_all add: registry_ids_def)
  with a u f e1 e2 e4 n show ?thesis by simp
qed

text \<open>
  The claim as stated fails: three node objects are registered under the identifier
  node1, the payload is stored on all of them, and the delete reaches only the first.
  The second is still registered, its identifier is listed, and it still holds the
  payload.
\<close>

theorem delete_file_twins_counterexample:
  "file_map twins3 (toy_digest ''Hello World'')
        = Some \<lparr>filename = ''test.txt'', nodes_rec = [''node1'', ''node1'', ''node1'']\<rparr>
   \<and> nodes twins3 = [0, 1, 2]
   \<and> files (heap twins3 1) (toy_digest ''Hello World'') = Some ''Hello World''
   \<and> fst (delete_file twins3 (toy_digest ''Hello World'')) = True
   \<and> nodes (snd (delete_file twins3 (toy_digest ''Hello World''))) = [0, 1, 2]
   \<and> node_id (heap (snd (delete_file twins3 (toy_digest ''Hello World''))) 1) = ''node1''
   \<and> files (heap (snd (delete_file twins3 (toy_digest ''Hello World''))) 0) (toy_digest ''Hello World'') = None
   \<and> files (heap (snd (delete_file twins3 (toy_digest ''Hello World''))) 1) (toy_digest ''Hello World'')
        = Some ''Hello World''"
  by (simp add: eval_defs)

section \<open>Reachable states\<close>

text \<open>
  C8. In every state that a sequence of \<open>add_node\<close>, \<open>remove_node\<close>, \<open>store_file\<close>,
  \<open>retrieve_file\<close> and \<open>delete_file\<close> calls reaches from a fresh coordinator, every
  identifier listed in a record is among the identifiers the registry had at the moment
  the record was created; and removing a node leaves the directory, hence every
  record, exactly as it was.
\<close>

theorem records_list_registry_members:
  assumes "reach H s g"
  shows "(\<forall>fid r. file_map s fid = Some r \<longrightarrow>
            (\<exists>ids. g fid = Some ids \<and> set (nodes_rec r) \<subseteq> set ids))
         \<and> (\<forall>nid. file_map (remove_node nid s) = file_map s)"
  using reach_born_in_registry [OF assms]
  by (simp add: born_in_registry_def remove_node_def)

theorem records_list_registry_members_witness:
  "reach toy_digest lost1
     [hash_file toy_digest ''Hello World'' \<mapsto> [''node1'', ''node2'', ''node3'']]
   \<and> registry_ids lost1 = [''node2'', ''node3'']
   \<and> file_map lost1 (hash_file toy_digest ''Hello World'')
        = Some \<lparr>filename = ''test.txt'', nodes_rec = [''node1'', ''node2'', ''node3'']\<rparr>
   \<and> (\<exists>ids. [hash_file toy_digest ''Hello World'' \<mapsto> [''node1'', ''node2'', ''node3'']]
                (hash_file toy_digest ''Hello World'') = Some ids
              \<and> set [''node1'', ''node2'', ''node3''] \<subseteq> set ids)
   \<and> file_map (remove_node ''node2'' lost1) = file_map lost1"
proof -
  let ?fid = "hash_file toy_digest ''Hello World''"
  let ?g = "[?fid \<mapsto> [''node1'', ''node2'', ''node3'']]"
  let ?r = "\<lparr>filename = ''test.txt'', nodes_rec = [''node1'', ''node2'', ''node3'']\<rparr>"
  have r3: "reach toy_digest dfs3 Map.empty"
    unfolding dfs3_def by (intro reach_add_node reach_init)
  have v: "0 \<le> num_replicas dfs3 \<and> num_replicas dfs3 \<le> int (length (nodes dfs3))
             \<longrightarrow> valid_sel [0, 1, 2] (length (nodes dfs3)) (num_replicas dfs3)"
    using valid_sel_dfs3 by simp
  have c1: "file_map dfs3 ?fid = None"
    by (simp add: eval_defs)
  have c2: "file_map (snd (store_file toy_digest [0, 1, 2] ''test.txt'' ''Hello World'' dfs3)) ?fid \<noteq> None"
    by (simp add: eval_defs)
  have c3: "registry_ids dfs3 = [''node1'', ''node2'', ''node3'']"
    by (simp add: eval_defs)
  from reach_store_file [OF r3 v, of "''test.txt''" "''Hello World''"]
  have r4: "reach toy_digest stored3 ?g"
    unfolding stored3_def by (simp only: c1 c2 c3 simp_thms if_True)
  have r5: "reach toy_digest lost1 ?g"
    unfolding lost1_def by (rule reach_remove_node [OF r4])
  have a: "file_map lost1 ?fid = Some ?r"
    by (simp add: eval_defs)
  have n: "registry_ids lost1 = [''node2'', ''node3'']"
    by (simp add: eval_defs)
  from records_list_registry_members [OF r5] a
  have "(\<exists>ids. ?g ?fid = Some ids \<and> set (nodes_rec ?r) \<subseteq> set ids)"
    and "file_map (remove_node ''node2'' lost1) = file_map lost1"
    by blast+
  with r5 a n show ?thesis by simp
qed

end
